theory Spec2Isabelle
  imports Complex_Main "HOL-Library.Multiset"
begin

section \<open>Numbers\<close>

text \<open>
  The counters of the application (\<open>score\<close>, \<open>attempts\<close>, \<open>currentIndex\<close>, ...) are
  TypeScript \<open>number\<close>s that only ever hold integers: they start at 0 and change by 1.
  They are modelled as \<open>int\<close>; doubles are exact on integers below \<open>2^53\<close>, which no
  counter of a flashcard session reaches.

  A division leaves the integers. Its result is a rational, or one of the three special
  values a division by zero produces. Two sets of operations follow. \<open>js_div\<close> and
  \<open>js_times\<close> give the exact quotient and product. \<open>double_div\<close> and \<open>double_times\<close>
  round each result to the nearest double, as the machine does.
\<close>

datatype jsnum = Num rat | NaN | Infinity | NegInfinity

text \<open>\<open>a / b\<close> on two integer-valued numbers.\<close>

definition js_div :: "int \<Rightarrow> int \<Rightarrow> jsnum" where
  "js_div a b =
     (if b = 0 then (if a = 0 then NaN else if 0 < a then Infinity else NegInfinity)
      else Num (rat_of_int a / rat_of_int b))"

text \<open>\<open>x * k\<close> for a positive integer constant \<open>k\<close> (the source multiplies by 100).\<close>

fun js_times :: "jsnum \<Rightarrow> nat \<Rightarrow> jsnum" where
  "js_times (Num x) k = Num (x * of_nat k)"
| "js_times NaN k = NaN"
| "js_times Infinity k = (if k = 0 then NaN else Infinity)"
| "js_times NegInfinity k = (if k = 0 then NaN else NegInfinity)"

text \<open>\<open>Math.round\<close>: the nearest integer, a tie going up; NaN and the infinities are kept.\<close>

fun Math_round :: "jsnum \<Rightarrow> jsnum" where
  "Math_round (Num x) = Num (rat_of_int \<lfloor>x + 1 / 2\<rfloor>)"
| "Math_round NaN = NaN"
| "Math_round Infinity = Infinity"
| "Math_round NegInfinity = NegInfinity"

fun isNaN :: "jsnum \<Rightarrow> bool" where
  "isNaN NaN = True"
| "isNaN (Num x) = False"
| "isNaN Infinity = False"
| "isNaN NegInfinity = False"

subsection \<open>Doubles\<close>

text \<open>
  A double has 53 significant bits. \<open>to_double\<close> rounds a rational to the nearest such
  number, a tie going to the even one (IEEE 754 binary64, round to nearest). The exponent
  is not bounded: overflow and subnormal numbers are left out, which no quotient of two
  counters and no hundredfold of it reaches.

  \<open>bit_length n\<close> is the number of binary digits of \<open>n\<close>, and \<open>pow2 k\<close> is 2 to the power
  \<open>k\<close>. For a positive \<open>x = p / q\<close> the exponent \<open>e\<close> with \<open>2^e \<le> x < 2^(e+1)\<close> is
  \<open>bit_length p - bit_length q\<close> or one less.
\<close>

function bit_length :: "int \<Rightarrow> int" where
  "bit_length n = (if n \<le> 0 then 0 else 1 + bit_length (n div 2))"
  by pat_completeness auto
termination
  by (relation "measure nat") auto

definition pow2 :: "int \<Rightarrow> rat" where
  "pow2 k = (if 0 \<le> k then 2 ^ nat k else 1 / 2 ^ nat (- k))"

definition round_half_even :: "rat \<Rightarrow> int" where
  "round_half_even m =
     (let f = \<lfloor>m\<rfloor>; r = m - rat_of_int f
      in if r < 1 / 2 then f else if 1 / 2 < r then f + 1
         else if even f then f else f + 1)"

definition to_double :: "rat \<Rightarrow> rat" where
  "to_double x =
     (if x = 0 then 0
      else
        (let (p, q) = quotient_of \<bar>x\<bar>;
             k = bit_length p - bit_length q;
             e = (if pow2 k \<le> \<bar>x\<bar> then k else k - 1);
             u = pow2 (e - 52)
         in sgn x * rat_of_int (round_half_even (\<bar>x\<bar> / u)) * u))"

text \<open>\<open>a / b\<close> and \<open>x * k\<close> in double arithmetic: the exact result, rounded.\<close>

definition double_div :: "int \<Rightarrow> int \<Rightarrow> jsnum" where
  "double_div a b =
     (if b = 0 then (if a = 0 then NaN else if 0 < a then Infinity else NegInfinity)
      else Num (to_double (rat_of_int a / rat_of_int b)))"

fun double_times :: "jsnum \<Rightarrow> nat \<Rightarrow> jsnum" where
  "double_times (Num x) k = Num (to_double (x * of_nat k))"
| "double_times NaN k = NaN"
| "double_times Infinity k = (if k = 0 then NaN else Infinity)"
| "double_times NegInfinity k = (if k = 0 then NaN else NegInfinity)"

section \<open>Data model\<close>

text \<open>
  \<open>interface Character\<close> of \<open>storage.ts\<close>. Timestamps (\<open>Date\<close> values and the ISO
  strings of the table) are modelled as \<open>int\<close>, the milliseconds since the epoch.
  The field \<open>id\<close> is written \<open>id'\<close>.
\<close>

type_synonym timestamp = int

record Character =
  id' :: string
  chinese :: string
  pinyin :: string
  english :: string
  category :: string
  score :: int
  attempts :: int
  correctCount :: int
  lastReviewed :: timestamp

text \<open>\<open>interface StudySession\<close> of \<open>flashcard-logic.ts\<close>.\<close>

record StudySession =
  characters :: "Character list"
  currentIndex :: int
  totalCards :: int
  correctAnswers :: int
  incorrectAnswers :: int

section \<open>Session logic (\<open>flashcard-logic.ts\<close>)\<close>

definition createSession :: "Character list \<Rightarrow> StudySession" where
  "createSession cs =
     \<lparr>characters = cs, currentIndex = 0, totalCards = int (length cs),
      correctAnswers = 0, incorrectAnswers = 0\<rparr>"

text \<open>
  \<open>getCurrentCharacter\<close> returns \<open>null\<close> past the end of the array. Below 0, where the
  source reads the array out of range and gets \<open>undefined\<close>, the model has \<open>None\<close> as well.
\<close>

definition getCurrentCharacter :: "StudySession \<Rightarrow> Character option" where
  "getCurrentCharacter session =
     (if currentIndex session \<ge> int (length (characters session)) then None
      else if currentIndex session < 0 then None
      else Some (characters session ! nat (currentIndex session)))"

definition nextCharacter :: "StudySession \<Rightarrow> StudySession" where
  "nextCharacter session = session\<lparr>currentIndex := currentIndex session + 1\<rparr>"

definition recordAnswerAndNext :: "StudySession \<Rightarrow> bool \<Rightarrow> StudySession" where
  "recordAnswerAndNext session isCorrect =
     session\<lparr>currentIndex := currentIndex session + 1,
       correctAnswers :=
         (if isCorrect then correctAnswers session + 1 else correctAnswers session),
       incorrectAnswers :=
         (if isCorrect then incorrectAnswers session else incorrectAnswers session + 1)\<rparr>"

definition isSessionComplete :: "StudySession \<Rightarrow> bool" where
  "isSessionComplete session \<longleftrightarrow> currentIndex session \<ge> int (length (characters session))"

text \<open>
  \<open>getProgress\<close> is taken on the exact quotient; what is stated of it below is its
  range, its zero cases and when it reaches 100. \<open>getStats\<close> computes its accuracy in
  double arithmetic, so that its value is the one the program returns: 23 correct answers
  out of 40 give 57, since the double nearest to 23/40, times 100, is below 57.5.
\<close>

definition getProgress :: "StudySession \<Rightarrow> jsnum" where
  "getProgress session =
     (if totalCards session = 0 then Num 0
      else Math_round (js_times (js_div (currentIndex session) (totalCards session)) 100))"

record Stats =
  total :: int
  completed :: int
  correct :: int
  incorrect :: int
  accuracy :: jsnum
  remaining :: int

definition getStats :: "StudySession \<Rightarrow> Stats" where
  "getStats session =
     (let accuracy0 =
            (if totalCards session > 0
             then Math_round (double_times
                    (double_div (correctAnswers session)
                       (correctAnswers session + incorrectAnswers session)) 100)
             else Num 0)
      in \<lparr>total = totalCards session,
          completed = currentIndex session,
          correct = correctAnswers session,
          incorrect = incorrectAnswers session,
          accuracy = (if isNaN accuracy0 then Num 0 else accuracy0),
          remaining = totalCards session - currentIndex session\<rparr>)"

text \<open>
  The operations that return a session, as data, and a run of them from a starting session.
\<close>

datatype session_op = NextCharacter | RecordAnswerAndNext bool

fun apply_op :: "StudySession \<Rightarrow> session_op \<Rightarrow> StudySession" where
  "apply_op session NextCharacter = nextCharacter session"
| "apply_op session (RecordAnswerAndNext isCorrect) = recordAnswerAndNext session isCorrect"

definition run_ops :: "StudySession \<Rightarrow> session_op list \<Rightarrow> StudySession" where
  "run_ops session ops = foldl apply_op session ops"

fun is_next :: "session_op \<Rightarrow> bool" where
  "is_next NextCharacter = True"
| "is_next (RecordAnswerAndNext isCorrect) = False"

text \<open>
  The accuracy as the specification words it: \<open>round(correct / (correct + incorrect) * 100)\<close>,
  and 0 when \<open>correct + incorrect\<close> is 0. The quotient and the product are those of the
  machine.
\<close>

definition spec_accuracy :: "int \<Rightarrow> int \<Rightarrow> jsnum" where
  "spec_accuracy c i =
     (if c + i = 0 then Num 0 else Math_round (double_times (double_div c (c + i)) 100))"

text \<open>
  The sessions the application builds: \<open>totalCards\<close> is the number of cards, and the
  cursor has not left the range from 0 to \<open>totalCards\<close>. They are the sessions reached from
  \<open>createSession\<close> by answering only sessions that are not complete.
\<close>

definition well_formed :: "StudySession \<Rightarrow> bool" where
  "well_formed s \<longleftrightarrow>
     totalCards s = int (length (characters s))
     \<and> 0 \<le> currentIndex s \<and> currentIndex s \<le> totalCards s"

text \<open>A card for concrete sessions: one of the sample characters of \<open>initializeSampleData\<close>.\<close>

definition sample_card :: Character where
  "sample_card =
     \<lparr>id' = ''c1'', chinese = ''shui'', pinyin = ''shui'', english = ''water'',
      category = ''Nature'', score = 0, attempts = 0, correctCount = 0, lastReviewed = 0\<rparr>"

section \<open>The table and its queries (\<open>storage.ts\<close>)\<close>

text \<open>
  \<open>interface CharacterRow\<close>: a row of the table \<open>characters\<close>. The fields carry the prefix
  \<open>row_\<close>, since several have the names of the fields of \<open>Character\<close>.
\<close>

record CharacterRow =
  row_id :: string
  row_user_id :: string
  row_chinese :: string
  row_pinyin :: string
  row_english :: string
  row_category :: string
  row_score :: int
  row_attempts :: int
  row_correct_count :: int
  row_last_reviewed :: timestamp
  row_created_at :: timestamp

definition mapRowToCharacter :: "CharacterRow \<Rightarrow> Character" where
  "mapRowToCharacter row =
     \<lparr>id' = row_id row,
      chinese = row_chinese row,
      pinyin = row_pinyin row,
      english = row_english row,
      category = row_category row,
      score = row_score row,
      attempts = row_attempts row,
      correctCount = row_correct_count row,
      lastReviewed = row_last_reviewed row\<rparr>"

text \<open>
  The table lives in a hosted database that the code reaches through a query builder.
  The builder's calls are in the source; what the database answers is not, and is modelled
  here at its interface. A query is what the calls \<open>.eq\<close>, \<open>.order\<close> and \<open>.limit\<close> have
  collected. The database keeps the rows that match every \<open>.eq\<close>, sorts them by the
  \<open>.order\<close> clauses, the first call being the primary key, and cuts the result at the limit.

  The table is the list of the rows the caller may see, in the order in which the database
  delivers rows that no \<open>.order\<close> clause tells apart. SQL leaves that order to the engine;
  taking it as a parameter makes the sort a stable sort of that list.
\<close>

type_synonym table = "CharacterRow list"

datatype column = Col_score | Col_attempts | Col_created_at

datatype text_column = Col_id | Col_category

fun col_val :: "column \<Rightarrow> CharacterRow \<Rightarrow> int" where
  "col_val Col_score r = row_score r"
| "col_val Col_attempts r = row_attempts r"
| "col_val Col_created_at r = row_created_at r"

fun text_val :: "text_column \<Rightarrow> CharacterRow \<Rightarrow> string" where
  "text_val Col_id r = row_id r"
| "text_val Col_category r = row_category r"

record query =
  q_eq :: "(text_column \<times> string) list"
  q_order :: "(column \<times> bool) list"
  q_limit :: "nat option"

text \<open>\<open>supabase.from('characters').select(...)\<close> and the three builder calls.\<close>

definition from_characters :: query where
  "from_characters = \<lparr>q_eq = [], q_order = [], q_limit = None\<rparr>"

definition eq_filter :: "text_column \<Rightarrow> string \<Rightarrow> query \<Rightarrow> query" where
  "eq_filter c v q = q\<lparr>q_eq := q_eq q @ [(c, v)]\<rparr>"

definition order_by :: "column \<Rightarrow> bool \<Rightarrow> query \<Rightarrow> query" where
  "order_by c ascending q = q\<lparr>q_order := q_order q @ [(c, ascending)]\<rparr>"

definition limit_to :: "nat \<Rightarrow> query \<Rightarrow> query" where
  "limit_to n q = q\<lparr>q_limit := Some n\<rparr>"

text \<open>Whether row \<open>a\<close> may stand before row \<open>b\<close> under a list of \<open>.order\<close> clauses.\<close>

fun row_le :: "(column \<times> bool) list \<Rightarrow> CharacterRow \<Rightarrow> CharacterRow \<Rightarrow> bool" where
  "row_le [] a b = True"
| "row_le ((c, ascending) # cs) a b =
     (if col_val c a = col_val c b then row_le cs a b
      else if ascending then col_val c a < col_val c b
      else col_val c b < col_val c a)"

fun insert_row :: "('a \<Rightarrow> 'a \<Rightarrow> bool) \<Rightarrow> 'a \<Rightarrow> 'a list \<Rightarrow> 'a list" where
  "insert_row le x [] = [x]"
| "insert_row le x (y # ys) = (if le x y then x # y # ys else y # insert_row le x ys)"

definition sort_rows :: "('a \<Rightarrow> 'a \<Rightarrow> bool) \<Rightarrow> 'a list \<Rightarrow> 'a list" where
  "sort_rows le xs = foldr (insert_row le) xs []"

definition matches :: "query \<Rightarrow> CharacterRow \<Rightarrow> bool" where
  "matches q r = list_all (\<lambda>(c, v). text_val c r = v) (q_eq q)"

text \<open>
  Modelled from the spec: the answer of the database to a select, which is no code of the
  repository. It is the contract of the specification for the ordering query: filter,
  sort, bound.
\<close>

definition run_select :: "query \<Rightarrow> table \<Rightarrow> CharacterRow list" where
  "run_select q tbl =
     (let rows = sort_rows (row_le (q_order q)) (filter (matches q) tbl)
      in case q_limit q of None \<Rightarrow> rows | Some n \<Rightarrow> take n rows)"

text \<open>
  The pair \<open>{ data, error }\<close> that awaiting a query yields. The flag \<open>ok\<close> says whether the
  request reached the database and was answered.
\<close>

datatype 'a response = Data 'a | Error

definition await_select :: "bool \<Rightarrow> query \<Rightarrow> table \<Rightarrow> CharacterRow list response" where
  "await_select ok q tbl = (if ok then Data (run_select q tbl) else Error)"

text \<open>\<open>.single()\<close>: an error unless exactly one row came back.\<close>

fun single :: "'a list response \<Rightarrow> 'a response" where
  "single (Data [x]) = Data x"
| "single (Data []) = Error"
| "single (Data (x # y # ys)) = Error"
| "single Error = Error"

text \<open>The object \<open>updates\<close> of \<open>recordAnswer\<close>, and \<open>.update(updates)\<close> on the matching rows.\<close>

record answer_updates =
  upd_attempts :: int
  upd_correct_count :: int
  upd_score :: int
  upd_last_reviewed :: timestamp

definition apply_updates :: "answer_updates \<Rightarrow> CharacterRow \<Rightarrow> CharacterRow" where
  "apply_updates u r =
     r\<lparr>row_attempts := upd_attempts u,
       row_correct_count := upd_correct_count u,
       row_score := upd_score u,
       row_last_reviewed := upd_last_reviewed u\<rparr>"

text \<open>
  Modelled from the spec: the effect of an update in the database, which is no code of the
  repository. The rows that match get the new values; a failed request changes nothing.
\<close>

definition await_update :: "bool \<Rightarrow> answer_updates \<Rightarrow> query \<Rightarrow> table \<Rightarrow> table" where
  "await_update ok u q tbl =
     (if ok then map (\<lambda>r. if matches q r then apply_updates u r else r) tbl else tbl)"

subsection \<open>The functions of \<open>storage\<close>\<close>

text \<open>
  Each function takes the flags of its requests and the table; those that write return the
  table. \<open>now\<close> is the clock (\<open>new Date()\<close>). The optional parameter \<open>category\<close> of
  \<open>getStudySession\<close> is \<open>cat\<close>, with \<open>None\<close> for \<open>undefined\<close>; the test
  \<open>category && category !== 'all'\<close> is false for \<open>undefined\<close> and for the empty string.
\<close>

definition getCharacters :: "bool \<Rightarrow> table \<Rightarrow> Character list" where
  "getCharacters ok tbl =
     (case await_select ok (order_by Col_created_at False from_characters) tbl of
        Error \<Rightarrow> []
      | Data rows \<Rightarrow> map mapRowToCharacter rows)"

text \<open>
  \<open>addCharacter\<close>. The database fills \<open>id\<close>, \<open>user_id\<close> and \<open>created_at\<close> of the inserted
  row; they are the parameters \<open>new_id\<close>, \<open>uid\<close> and \<open>now\<close>. The new row is the last of the
  table.
\<close>

record NewCharacter =
  new_chinese :: string
  new_pinyin :: string
  new_english :: string
  new_category :: string

definition addCharacter ::
  "bool \<Rightarrow> string \<Rightarrow> string \<Rightarrow> timestamp \<Rightarrow> NewCharacter \<Rightarrow> table \<Rightarrow> Character option \<times> table" where
  "addCharacter ok new_id uid now character tbl =
     (let newCharacter =
            \<lparr>row_id = new_id, row_user_id = uid,
             row_chinese = new_chinese character,
             row_pinyin = new_pinyin character,
             row_english = new_english character,
             row_category = new_category character,
             row_score = 0, row_attempts = 0, row_correct_count = 0,
             row_last_reviewed = now, row_created_at = now\<rparr>
      in if ok then (Some (mapRowToCharacter newCharacter), tbl @ [newCharacter])
         else (None, tbl))"

definition getStudySession :: "bool \<Rightarrow> string option \<Rightarrow> table \<Rightarrow> Character list" where
  "getStudySession ok cat tbl =
     (let query0 = order_by Col_attempts False (order_by Col_score True from_characters);
          query1 =
            (case cat of
               None \<Rightarrow> limit_to 10 query0
             | Some c \<Rightarrow>
                 if c \<noteq> [] \<and> c \<noteq> ''all'' then eq_filter Col_category c query0
                 else limit_to 10 query0)
      in case await_select ok query1 tbl of
           Error \<Rightarrow> []
         | Data rows \<Rightarrow> map mapRowToCharacter rows)"

definition recordAnswer ::
  "bool \<Rightarrow> bool \<Rightarrow> timestamp \<Rightarrow> string \<Rightarrow> bool \<Rightarrow> table \<Rightarrow> table" where
  "recordAnswer fetch_ok update_ok now i isCorrect tbl =
     (case single (await_select fetch_ok (eq_filter Col_id i from_characters) tbl) of
        Error \<Rightarrow> tbl
      | Data currentData \<Rightarrow>
          (let updates =
                 \<lparr>upd_attempts = row_attempts currentData + 1,
                  upd_correct_count =
                    (if isCorrect then row_correct_count currentData + 1
                     else row_correct_count currentData),
                  upd_score =
                    (if isCorrect then row_score currentData + 1
                     else max 0 (row_score currentData - 1)),
                  upd_last_reviewed = now\<rparr>
           in await_update update_ok updates (eq_filter Col_id i from_characters) tbl))"

subsection \<open>Runs of storage calls, and the words of the specification\<close>

datatype storage_op =
    AddCharacter bool string string timestamp NewCharacter
  | RecordAnswer bool bool timestamp string bool

fun apply_storage_op :: "table \<Rightarrow> storage_op \<Rightarrow> table" where
  "apply_storage_op tbl (AddCharacter ok new_id uid now character) =
     snd (addCharacter ok new_id uid now character tbl)"
| "apply_storage_op tbl (RecordAnswer fetch_ok update_ok now i isCorrect) =
     recordAnswer fetch_ok update_ok now i isCorrect tbl"

definition run_storage :: "table \<Rightarrow> storage_op list \<Rightarrow> table" where
  "run_storage tbl ops = foldl apply_storage_op tbl ops"

text \<open>The three counters of a row, as \<open>(score, attempts, correctCount)\<close>.\<close>

definition counters :: "CharacterRow \<Rightarrow> int \<times> int \<times> int" where
  "counters r = (row_score r, row_attempts r, row_correct_count r)"

text \<open>The invariant of the data model: \<open>correctCount \<le> attempts\<close> and \<open>score \<ge> 0\<close>.\<close>

definition row_inv :: "CharacterRow \<Rightarrow> bool" where
  "row_inv r \<longleftrightarrow> row_correct_count r \<le> row_attempts r \<and> 0 \<le> row_score r"

text \<open>
  The order of the specification: score ascending and, on equal score, attempts
  descending.
\<close>

definition study_order :: "Character \<Rightarrow> Character \<Rightarrow> bool" where
  "study_order a b \<longleftrightarrow> score a < score b \<or> (score a = score b \<and> attempts b \<le> attempts a)"

text \<open>Two items that the sort does not tell apart: equal score and equal attempts.\<close>

definition tie_class :: "int \<Rightarrow> int \<Rightarrow> Character \<Rightarrow> bool" where
  "tie_class sc att x \<longleftrightarrow> score x = sc \<and> attempts x = att"

text \<open>Rows for concrete tables, and the table of the specification's scenario.\<close>

definition sample_row :: "string \<Rightarrow> string \<Rightarrow> int \<Rightarrow> int \<Rightarrow> timestamp \<Rightarrow> CharacterRow" where
  "sample_row i cat sc att created =
     \<lparr>row_id = i, row_user_id = ''u1'', row_chinese = ''shui'', row_pinyin = ''shui'',
      row_english = ''water'', row_category = cat, row_score = sc, row_attempts = att,
      row_correct_count = 0, row_last_reviewed = created, row_created_at = created\<rparr>"

definition scenario_table :: table where
  "scenario_table =
     [sample_row ''A'' ''Nature'' 2 5 1, sample_row ''B'' ''Numbers'' 0 3 2,
      sample_row ''C'' ''Nature'' 0 1 3]"

section \<open>Recording an answer in a session\<close>

text \<open>
  C6. For every session and every boolean, \<open>recordAnswerAndNext\<close> returns a session whose
  cursor is one further, in which the tally of correct answers grew by one when the answer
  was correct and the tally of incorrect answers grew by one when it was not, the other
  tally, the card list and \<open>totalCards\<close> being those of the input.
\<close>

theorem recordAnswerAndNext_effect:
  "currentIndex (recordAnswerAndNext s b) = currentIndex s + 1
   \<and> correctAnswers (recordAnswerAndNext s b) = correctAnswers s + (if b then 1 else 0)
   \<and> incorrectAnswers (recordAnswerAndNext s b) = incorrectAnswers s + (if b then 0 else 1)
   \<and> characters (recordAnswerAndNext s b) = characters s
   \<and> totalCards (recordAnswerAndNext s b) = totalCards s"
  by (simp add: recordAnswerAndNext_def)

section \<open>Advancing without an answer\<close>

text \<open>
  C10. \<open>nextCharacter\<close> returns, for every session, a session whose cursor is one
  further and whose card list, \<open>totalCards\<close> and two tallies are those of the input. It
  records no answer: when the tallies of the input add up to its cursor, those of the
  result do not add up to the result's cursor.
\<close>

theorem nextCharacter_effect:
  "currentIndex (nextCharacter s) = currentIndex s + 1
   \<and> characters (nextCharacter s) = characters s
   \<and> totalCards (nextCharacter s) = totalCards s
   \<and> correctAnswers (nextCharacter s) = correctAnswers s
   \<and> incorrectAnswers (nextCharacter s) = incorrectAnswers s
   \<and> (correct (getStats s) + incorrect (getStats s) = currentIndex s \<longrightarrow>
        correct (getStats (nextCharacter s)) + incorrect (getStats (nextCharacter s))
          \<noteq> currentIndex (nextCharacter s))"
  by (simp add: nextCharacter_def getStats_def Let_def)

theorem nextCharacter_effect_witness:
  "correct (getStats (createSession [])) + incorrect (getStats (createSession []))
     = currentIndex (createSession [])
   \<and> currentIndex (nextCharacter (createSession [])) = 1
   \<and> correct (getStats (nextCharacter (createSession [])))
       + incorrect (getStats (nextCharacter (createSession [])))
     \<noteq> currentIndex (nextCharacter (createSession []))"
proof -
  have start: "correct (getStats (createSession [])) + incorrect (getStats (createSession []))
     = currentIndex (createSession [])"
    by (simp add: createSession_def getStats_def Let_def)
  have pos: "currentIndex (createSession []) = 0"
    by (simp add: createSession_def)
  from nextCharacter_effect [of "createSession []"] start pos show ?thesis
    by simp
qed

section \<open>Tallies and cursor\<close>

lemma run_ops_snoc: "run_ops s (ops @ [x]) = apply_op (run_ops s ops) x"
  by (simp add: run_ops_def)

lemma tallies_apply_op:
  "correctAnswers (apply_op s x) + incorrectAnswers (apply_op s x) + (if is_next x then 1 else 0)
     = correctAnswers s + incorrectAnswers s + 1
   \<and> currentIndex (apply_op s x) = currentIndex s + 1"
  by (cases x) (simp_all add: nextCharacter_def recordAnswerAndNext_def)

text \<open>
  C5, as the code has it. After any run of session operations from \<open>createSession items\<close>,
  the cursor equals the two tallies plus the number of \<open>nextCharacter\<close> calls in the run.
  So \<open>correct + incorrect = currentIndex\<close> holds after every run made of
  \<open>recordAnswerAndNext\<close> calls only, and each \<open>nextCharacter\<close> call puts the cursor one
  more ahead of the tallies.
\<close>

theorem tallies_plus_skips_eq_cursor:
  "correct (getStats (run_ops (createSession items) ops))
     + incorrect (getStats (run_ops (createSession items) ops))
     + int (length (filter is_next ops))
   = currentIndex (run_ops (createSession items) ops)"
proof -
  have "correctAnswers (run_ops (createSession items) ops)
          + incorrectAnswers (run_ops (createSession items) ops)
          + int (length (filter is_next ops))
        = currentIndex (run_ops (createSession items) ops)"
  proof (induction ops rule: rev_induct)
    case Nil
    show ?case by (simp add: run_ops_def createSession_def)
  next
    case (snoc x ops)
    from tallies_apply_op [of "run_ops (createSession items) ops" x] snoc.IH
    show ?case by (simp add: run_ops_snoc split: if_splits)
  qed
  then show ?thesis by (simp add: getStats_def Let_def)
qed

text \<open>
  C5 as stated fails: one \<open>nextCharacter\<close> call on a fresh session leaves both tallies
  at 0 and the cursor at 1.
\<close>

theorem tallies_eq_cursor_counterexample:
  "correct (getStats (run_ops (createSession []) [NextCharacter]))
     + incorrect (getStats (run_ops (createSession []) [NextCharacter]))
   \<noteq> currentIndex (run_ops (createSession []) [NextCharacter])"
  by (simp add: run_ops_def nextCharacter_def createSession_def getStats_def Let_def)

section \<open>Answering a complete session\<close>

text \<open>
  C4, as the code has it. \<open>recordAnswerAndNext\<close> checks nothing and has no failing
  branch: on a session that is already complete it returns a session as on any other,
  the cursor one further and one tally incremented, and the result is complete again.
\<close>

theorem recordAnswerAndNext_when_complete:
  "isSessionComplete s \<Longrightarrow>
     isSessionComplete (recordAnswerAndNext s b)
     \<and> currentIndex (recordAnswerAndNext s b) = currentIndex s + 1
     \<and> correctAnswers (recordAnswerAndNext s b) + incorrectAnswers (recordAnswerAndNext s b)
         = correctAnswers s + incorrectAnswers s + 1
     \<and> recordAnswerAndNext s b \<noteq> s"
proof -
  assume "isSessionComplete s"
  then have "isSessionComplete (recordAnswerAndNext s b)"
    by (simp add: isSessionComplete_def recordAnswerAndNext_def)
  moreover have "currentIndex (recordAnswerAndNext s b) = currentIndex s + 1"
    by (simp add: recordAnswerAndNext_def)
  moreover have "correctAnswers (recordAnswerAndNext s b) + incorrectAnswers (recordAnswerAndNext s b)
         = correctAnswers s + incorrectAnswers s + 1"
    by (simp add: recordAnswerAndNext_def)
  moreover have "recordAnswerAndNext s b \<noteq> s"
  proof
    assume "recordAnswerAndNext s b = s"
    then have "currentIndex (recordAnswerAndNext s b) = currentIndex s" by simp
    then show False by (simp add: recordAnswerAndNext_def)
  qed
  ultimately show ?thesis by simp
qed

theorem recordAnswerAndNext_when_complete_witness:
  "isSessionComplete (createSession [])
   \<and> isSessionComplete (recordAnswerAndNext (createSession []) False)
   \<and> currentIndex (recordAnswerAndNext (createSession []) False) = 1
   \<and> recordAnswerAndNext (createSession []) False \<noteq> createSession []"
proof -
  have complete0: "isSessionComplete (createSession [])"
    by (simp add: isSessionComplete_def createSession_def)
  from recordAnswerAndNext_when_complete [OF complete0, of False] complete0 show ?thesis
    by (simp add: createSession_def)
qed

text \<open>
  C4 as stated fails: the empty session is complete at creation, and answering it
  returns the session with cursor 1 and one correct answer.
\<close>

theorem recordAnswerAndNext_fails_loudly_counterexample:
  "isSessionComplete (createSession [])
   \<and> recordAnswerAndNext (createSession []) True
       = \<lparr>characters = [], currentIndex = 1, totalCards = 0,
          correctAnswers = 1, incorrectAnswers = 0\<rparr>"
  by (simp add: isSessionComplete_def createSession_def recordAnswerAndNext_def)

section \<open>Progress\<close>

lemma round_percent:
  "t \<noteq> 0 \<Longrightarrow> Math_round (js_times (js_div c t) 100)
     = Num (rat_of_int \<lfloor>rat_of_int c / rat_of_int t * 100 + 1 / 2\<rfloor>)"
  by (simp add: js_div_def)

lemma percent_nonneg:
  fixes c t :: int
  assumes "0 < t" "0 \<le> c"
  shows "0 \<le> \<lfloor>rat_of_int c / rat_of_int t * 100 + 1 / 2\<rfloor>"
proof -
  have "0 \<le> rat_of_int c / rat_of_int t * 100 + 1 / 2" using assms by simp
  then show ?thesis by simp
qed

lemma percent_le_100:
  fixes c t :: int
  assumes "0 < t" "c \<le> t"
  shows "\<lfloor>rat_of_int c / rat_of_int t * 100 + 1 / 2\<rfloor> \<le> 100"
proof -
  have "rat_of_int c \<le> rat_of_int t" using assms by simp
  then have "rat_of_int c / rat_of_int t \<le> 1" using assms by (simp add: field_simps)
  then have "rat_of_int c / rat_of_int t * 100 + 1 / 2 < rat_of_int 101" by simp
  then have "\<lfloor>rat_of_int c / rat_of_int t * 100 + 1 / 2\<rfloor> < 101"
    by (simp only: floor_less_iff)
  then show ?thesis by simp
qed

lemma percent_eq_100_iff:
  fixes c t :: int
  assumes "0 < t" "c \<le> t"
  shows "\<lfloor>rat_of_int c / rat_of_int t * 100 + 1 / 2\<rfloor> = 100 \<longleftrightarrow> 199 * t \<le> 200 * c"
proof -
  define p where "p = \<lfloor>rat_of_int c / rat_of_int t * 100 + 1 / 2\<rfloor>"
  have low: "rat_of_int 100 \<le> rat_of_int c / rat_of_int t * 100 + 1 / 2
      \<longleftrightarrow> rat_of_int (199 * t) \<le> rat_of_int (200 * c)"
    using assms(1) by (simp add: field_simps)
  have lower: "100 \<le> p \<longleftrightarrow> 199 * t \<le> 200 * c"
    unfolding p_def le_floor_iff low of_int_le_iff ..
  have upper: "p \<le> 100"
    unfolding p_def by (rule percent_le_100 [OF assms])
  from lower upper have "p = 100 \<longleftrightarrow> 199 * t \<le> 200 * c" by arith
  then show ?thesis by (simp only: p_def)
qed

lemma answers_reach:
  "run_ops (createSession cs) (replicate n (RecordAnswerAndNext True))
     = \<lparr>characters = cs, currentIndex = int n, totalCards = int (length cs),
        correctAnswers = int n, incorrectAnswers = 0\<rparr>"
proof (induction n)
  case 0
  show ?case by (simp add: run_ops_def createSession_def)
next
  case (Suc n)
  have "run_ops (createSession cs) (replicate (Suc n) (RecordAnswerAndNext True))
      = apply_op (run_ops (createSession cs) (replicate n (RecordAnswerAndNext True)))
          (RecordAnswerAndNext True)"
    by (simp only: replicate_Suc replicate_append_same [symmetric] run_ops_snoc)
  with Suc.IH show ?case by (simp add: recordAnswerAndNext_def)
qed

text \<open>
  C3, as the code has it. For every well-formed session, \<open>getProgress\<close> is an integer
  between 0 and 100; it is 0 for a freshly created session and whenever \<open>totalCards\<close> is 0,
  also though such a session is complete; with \<open>totalCards > 0\<close> a complete session has
  progress 100, and progress is 100 exactly when
  \<open>199 * totalCards \<le> 200 * currentIndex\<close>, the quotient rounding up to 100; so with
  fewer than 200 cards progress 100 implies that the session is complete.
\<close>

theorem getProgress_well_formed:
  assumes wf: "well_formed s"
  shows "(\<exists>p. getProgress s = Num (rat_of_int p) \<and> 0 \<le> p \<and> p \<le> 100)
    \<and> getProgress (createSession cs) = Num 0
    \<and> (totalCards s = 0 \<longrightarrow> getProgress s = Num 0)
    \<and> (0 < totalCards s \<longrightarrow> isSessionComplete s \<longrightarrow> getProgress s = Num 100)
    \<and> (0 < totalCards s \<longrightarrow>
          (getProgress s = Num 100) = (199 * totalCards s \<le> 200 * currentIndex s))
    \<and> (totalCards s < 200 \<longrightarrow> getProgress s = Num 100 \<longrightarrow> isSessionComplete s)"
proof -
  from wf have len: "totalCards s = int (length (characters s))"
    and c0: "0 \<le> currentIndex s" and ct: "currentIndex s \<le> totalCards s"
    by (simp_all add: well_formed_def)
  have fresh: "getProgress (createSession cs) = Num 0"
    by (simp add: getProgress_def createSession_def js_div_def floor_eq_iff)
  show ?thesis
  proof (cases "totalCards s = 0")
    case True
    then have z: "getProgress s = Num 0" by (simp add: getProgress_def)
    then have range: "\<exists>p. getProgress s = Num (rat_of_int p) \<and> 0 \<le> p \<and> p \<le> 100"
      by (intro exI [of _ 0]) simp
    from True z range fresh show ?thesis by simp
  next
    case False
    with len have pos: "0 < totalCards s" by simp
    let ?p = "\<lfloor>rat_of_int (currentIndex s) / rat_of_int (totalCards s) * 100 + 1 / 2\<rfloor>"
    from False have val: "getProgress s = Num (rat_of_int ?p)"
      by (simp add: getProgress_def round_percent)
    have range: "\<exists>p. getProgress s = Num (rat_of_int p) \<and> 0 \<le> p \<and> p \<le> 100"
      using val percent_nonneg [OF pos c0] percent_le_100 [OF pos ct] by blast
    have "(getProgress s = Num 100) = (?p = 100)"
      unfolding val by (simp only: jsnum.inject of_int_eq_numeral_iff)
    then have full: "(getProgress s = Num 100) = (199 * totalCards s \<le> 200 * currentIndex s)"
      by (simp only: percent_eq_100_iff [OF pos ct])
    have when_complete: "isSessionComplete s \<longrightarrow> getProgress s = Num 100"
      using full len ct by (simp add: isSessionComplete_def)
    have small: "totalCards s < 200 \<longrightarrow> getProgress s = Num 100 \<longrightarrow> isSessionComplete s"
      using full len ct by (simp add: isSessionComplete_def)
    from False range fresh full when_complete small show ?thesis by simp
  qed
qed

theorem getProgress_well_formed_witness:
  "well_formed (recordAnswerAndNext (createSession [sample_card]) True)
   \<and> isSessionComplete (recordAnswerAndNext (createSession [sample_card]) True)
   \<and> getProgress (recordAnswerAndNext (createSession [sample_card]) True) = Num 100
   \<and> getProgress (createSession [sample_card]) = Num 0"
proof -
  have wf: "well_formed (recordAnswerAndNext (createSession [sample_card]) True)"
    by (simp add: well_formed_def recordAnswerAndNext_def createSession_def)
  have fin: "isSessionComplete (recordAnswerAndNext (createSession [sample_card]) True)"
    by (simp add: isSessionComplete_def recordAnswerAndNext_def createSession_def)
  have tot: "0 < totalCards (recordAnswerAndNext (createSession [sample_card]) True)"
    by (simp add: recordAnswerAndNext_def createSession_def)
  from getProgress_well_formed [OF wf, of "[sample_card]"] fin tot wf show ?thesis
    by simp
qed

text \<open>
  C3 as stated fails three ways. The empty session is complete at creation and its
  progress is 0. A one-card session answered twice has progress 200. A session of 201
  cards has progress 100 after 200 answers, one card before it is complete.
\<close>

theorem getProgress_counterexample:
  "isSessionComplete (createSession []) \<and> getProgress (createSession []) = Num 0
   \<and> getProgress (run_ops (createSession [sample_card])
         [RecordAnswerAndNext True, RecordAnswerAndNext True]) = Num 200
   \<and> getProgress (run_ops (createSession (replicate 201 sample_card))
         (replicate 200 (RecordAnswerAndNext True))) = Num 100
   \<and> \<not> isSessionComplete (run_ops (createSession (replicate 201 sample_card))
         (replicate 200 (RecordAnswerAndNext True)))"
proof -
  have empty: "isSessionComplete (createSession []) \<and> getProgress (createSession []) = Num 0"
    by (simp add: isSessionComplete_def getProgress_def createSession_def)
  have twice: "getProgress (run_ops (createSession [sample_card])
         [RecordAnswerAndNext True, RecordAnswerAndNext True]) = Num 200"
    by (simp add: run_ops_def getProgress_def createSession_def recordAnswerAndNext_def
        js_div_def floor_eq_iff)
  have early: "getProgress (run_ops (createSession (replicate 201 sample_card))
         (replicate 200 (RecordAnswerAndNext True))) = Num 100"
    unfolding answers_reach by (simp add: getProgress_def js_div_def floor_eq_iff)
  have open_yet: "\<not> isSessionComplete (run_ops (createSession (replicate 201 sample_card))
         (replicate 200 (RecordAnswerAndNext True)))"
    unfolding answers_reach by (simp add: isSessionComplete_def)
  from empty twice early open_yet show ?thesis by simp
qed

section \<open>Accuracy\<close>

lemma run_answers:
  "run_ops s (replicate n (RecordAnswerAndNext b))
     = s\<lparr>currentIndex := currentIndex s + int n,
         correctAnswers := correctAnswers s + (if b then int n else 0),
         incorrectAnswers := incorrectAnswers s + (if b then 0 else int n)\<rparr>"
proof (induction n)
  case 0
  show ?case by (simp add: run_ops_def)
next
  case (Suc n)
  have "run_ops s (replicate (Suc n) (RecordAnswerAndNext b))
      = apply_op (run_ops s (replicate n (RecordAnswerAndNext b))) (RecordAnswerAndNext b)"
    by (simp only: replicate_Suc replicate_append_same [symmetric] run_ops_snoc)
  with Suc.IH show ?case by (simp add: recordAnswerAndNext_def)
qed

lemma run_ops_append: "run_ops s (xs @ ys) = run_ops (run_ops s xs) ys"
  by (simp add: run_ops_def)

lemma forty_cards:
  "run_ops (createSession (replicate 40 sample_card))
       (replicate 23 (RecordAnswerAndNext True) @ replicate 17 (RecordAnswerAndNext False))
     = \<lparr>characters = replicate 40 sample_card, currentIndex = 40, totalCards = 40,
        correctAnswers = 23, incorrectAnswers = 17\<rparr>"
  by (simp add: run_ops_append run_answers createSession_def)

lemma accuracy_23_of_40: "spec_accuracy 23 17 = Num 57"
  by code_simp

lemma accuracy_1_of_1: "spec_accuracy 1 0 = Num 100"
  by code_simp

text \<open>
  C7, as the code has it. The accuracy of \<open>getStats\<close> is never NaN. The guard is
  \<open>totalCards > 0\<close>: without cards the accuracy is 0 whatever the tallies are. With cards
  and tallies that are not negative it is the specification's value:
  \<open>round(correct / (correct + incorrect) * 100)\<close> when \<open>correct + incorrect > 0\<close>, and 0
  when \<open>correct + incorrect\<close> is 0, where the quotient 0 / 0 is NaN and \<open>isNaN\<close> turns it
  into 0.
\<close>

theorem accuracy_guarded:
  "\<not> isNaN (accuracy (getStats s))
   \<and> (totalCards s \<le> 0 \<longrightarrow> accuracy (getStats s) = Num 0)
   \<and> (0 < totalCards s \<longrightarrow> 0 \<le> correctAnswers s \<longrightarrow> 0 \<le> incorrectAnswers s \<longrightarrow>
        accuracy (getStats s) = spec_accuracy (correctAnswers s) (incorrectAnswers s))"
proof -
  have nan: "\<not> isNaN (accuracy (getStats s))"
    by (simp add: getStats_def Let_def)
  have none: "totalCards s \<le> 0 \<longrightarrow> accuracy (getStats s) = Num 0"
    by (simp add: getStats_def Let_def)
  have some: "accuracy (getStats s) = spec_accuracy (correctAnswers s) (incorrectAnswers s)"
    if "0 < totalCards s" "0 \<le> correctAnswers s" "0 \<le> incorrectAnswers s"
  proof (cases "correctAnswers s + incorrectAnswers s = 0")
    case True
    with that have "correctAnswers s = 0" by simp
    with True that show ?thesis
      by (simp add: getStats_def Let_def spec_accuracy_def double_div_def)
  next
    case False
    with that show ?thesis
      by (simp add: getStats_def Let_def spec_accuracy_def double_div_def)
  qed
  from nan none some show ?thesis by blast
qed

theorem accuracy_guarded_witness:
  "accuracy (getStats (run_ops (createSession (replicate 40 sample_card))
       (replicate 23 (RecordAnswerAndNext True) @ replicate 17 (RecordAnswerAndNext False))))
     = Num 57
   \<and> accuracy (getStats (createSession [sample_card, sample_card])) = Num 0
   \<and> accuracy (getStats (createSession [])) = Num 0"
proof -
  have a: "0 < totalCards \<lparr>characters = replicate 40 sample_card, currentIndex = 40,
        totalCards = 40, correctAnswers = 23, incorrectAnswers = 17\<rparr>"
    "0 \<le> correctAnswers \<lparr>characters = replicate 40 sample_card, currentIndex = 40,
        totalCards = 40, correctAnswers = 23, incorrectAnswers = 17\<rparr>"
    "0 \<le> incorrectAnswers \<lparr>characters = replicate 40 sample_card, currentIndex = 40,
        totalCards = 40, correctAnswers = 23, incorrectAnswers = 17\<rparr>"
    by simp_all
  have b: "0 < totalCards (createSession [sample_card, sample_card])"
    "0 \<le> correctAnswers (createSession [sample_card, sample_card])"
    "0 \<le> incorrectAnswers (createSession [sample_card, sample_card])"
    by (simp_all add: createSession_def)
  have c: "totalCards (createSession []) \<le> 0" by (simp add: createSession_def)
  have v2: "spec_accuracy (correctAnswers (createSession [sample_card, sample_card]))
      (incorrectAnswers (createSession [sample_card, sample_card])) = Num 0"
    by (simp add: spec_accuracy_def createSession_def)
  from accuracy_guarded [of "\<lparr>characters = replicate 40 sample_card, currentIndex = 40,
        totalCards = 40, correctAnswers = 23, incorrectAnswers = 17\<rparr>"] a
  have first: "accuracy (getStats \<lparr>characters = replicate 40 sample_card, currentIndex = 40,
        totalCards = 40, correctAnswers = 23, incorrectAnswers = 17\<rparr>) = Num 57"
    by (simp add: accuracy_23_of_40)
  from accuracy_guarded [of "createSession [sample_card, sample_card]"] b v2
  have second: "accuracy (getStats (createSession [sample_card, sample_card])) = Num 0"
    by simp
  from accuracy_guarded [of "createSession []"] c
  have third: "accuracy (getStats (createSession [])) = Num 0"
    by simp
  from first second third show ?thesis
    by (simp only: forty_cards simp_thms)
qed

text \<open>
  C7 as stated fails on the empty session answered once: \<open>correct + incorrect\<close> is 1, the
  specification's value is 100, and \<open>getStats\<close> returns 0, since \<open>totalCards\<close> is 0.
\<close>

theorem accuracy_counterexample:
  "correct (getStats (recordAnswerAndNext (createSession []) True))
     + incorrect (getStats (recordAnswerAndNext (createSession []) True)) = 1
   \<and> accuracy (getStats (recordAnswerAndNext (createSession []) True)) = Num 0
   \<and> spec_accuracy (correct (getStats (recordAnswerAndNext (createSession []) True)))
        (incorrect (getStats (recordAnswerAndNext (createSession []) True))) = Num 100"
  by (simp add: getStats_def Let_def recordAnswerAndNext_def createSession_def
      accuracy_1_of_1)

section \<open>The sort of the database\<close>

lemma sort_rows_Cons: "sort_rows le (x # xs) = insert_row le x (sort_rows le xs)"
  by (simp add: sort_rows_def)

lemma sort_rows_Nil: "sort_rows le [] = []"
  by (simp add: sort_rows_def)

lemma mset_insert_row: "mset (insert_row le x xs) = add_mset x (mset xs)"
  by (induction xs) simp_all

lemma mset_sort_rows: "mset (sort_rows le xs) = mset xs"
  by (induction xs) (simp_all add: sort_rows_Nil sort_rows_Cons mset_insert_row)

lemma set_sort_rows: "set (sort_rows le xs) = set xs"
  using mset_sort_rows [of le xs] by (metis set_mset_mset)

lemma length_sort_rows: "length (sort_rows le xs) = length xs"
  using mset_sort_rows [of le xs] by (metis size_mset)

lemma set_insert_row: "set (insert_row le x xs) = insert x (set xs)"
  using mset_insert_row [of le x xs] by (metis set_mset_mset set_mset_add_mset_insert)

lemma sorted_insert_row:
  assumes total: "\<And>a b. le a b \<or> le b a"
    and trans: "\<And>a b c. le a b \<Longrightarrow> le b c \<Longrightarrow> le a c"
  shows "sorted_wrt le xs \<Longrightarrow> sorted_wrt le (insert_row le x xs)"
proof (induction xs)
  case Nil
  show ?case by simp
next
  case (Cons y ys)
  show ?case
  proof (cases "le x y")
    case True
    with Cons.prems trans have "\<forall>z\<in>set ys. le x z" by auto
    with True Cons.prems show ?thesis by simp
  next
    case False
    with total have "le y x" by blast
    with False Cons show ?thesis by (auto simp add: set_insert_row)
  qed
qed

lemma sorted_sort_rows:
  assumes total: "\<And>a b. le a b \<or> le b a"
    and trans: "\<And>a b c. le a b \<Longrightarrow> le b c \<Longrightarrow> le a c"
  shows "sorted_wrt le (sort_rows le xs)"
proof (induction xs)
  case Nil
  show ?case by (simp add: sort_rows_Nil)
next
  case (Cons x xs)
  then show ?case
    by (simp only: sort_rows_Cons sorted_insert_row [of le, OF total trans])
qed

lemma filter_insert_row:
  assumes ties: "\<And>y. P x \<Longrightarrow> P y \<Longrightarrow> le x y"
  shows "filter P (insert_row le x xs) = (if P x then x # filter P xs else filter P xs)"
  using ties by (induction xs) auto

lemma filter_sort_rows:
  assumes ties: "\<And>x y. P x \<Longrightarrow> P y \<Longrightarrow> le x y"
  shows "filter P (sort_rows le xs) = filter P xs"
proof (induction xs)
  case Nil
  show ?case by (simp add: sort_rows_Nil)
next
  case (Cons x xs)
  have "filter P (insert_row le x (sort_rows le xs))
      = (if P x then x # filter P (sort_rows le xs) else filter P (sort_rows le xs))"
    by (rule filter_insert_row) (rule ties)
  with Cons.IH show ?case by (simp add: sort_rows_Cons)
qed

lemma row_le_total: "row_le cs a b \<or> row_le cs b a"
  by (induction cs a b rule: row_le.induct) auto

lemma row_le_trans: "row_le cs a b \<Longrightarrow> row_le cs b c \<Longrightarrow> row_le cs a c"
proof (induction cs)
  case Nil
  show ?case by simp
next
  case (Cons k cs)
  obtain col asc where k: "k = (col, asc)" by (cases k)
  from Cons.prems Cons.IH show ?case
    unfolding k by (cases asc) (auto split: if_splits)
qed

lemma sort_rows_trivial: "sort_rows (row_le []) xs = xs"
proof (induction xs)
  case Nil
  show ?case by (simp add: sort_rows_Nil)
next
  case (Cons x xs)
  then show ?case by (cases xs) (simp_all add: sort_rows_Cons)
qed


section \<open>The ordering query\<close>

lemma row_le_study:
  "row_le [(Col_score, True), (Col_attempts, False)] a b
     = study_order (mapRowToCharacter a) (mapRowToCharacter b)"
  by (auto simp add: study_order_def mapRowToCharacter_def)

lemma select_limited:
  "run_select (limit_to 10 (order_by Col_attempts False (order_by Col_score True from_characters))) tbl
     = take 10 (sort_rows (row_le [(Col_score, True), (Col_attempts, False)]) tbl)"
  by (simp add: run_select_def limit_to_def order_by_def from_characters_def
      matches_def [abs_def])

lemma select_category:
  "run_select (eq_filter Col_category c
       (order_by Col_attempts False (order_by Col_score True from_characters))) tbl
     = sort_rows (row_le [(Col_score, True), (Col_attempts, False)])
         (filter (\<lambda>r. row_category r = c) tbl)"
  by (simp add: run_select_def eq_filter_def order_by_def from_characters_def
      matches_def [abs_def])

lemma study_no_filter:
  assumes "cat = None \<or> cat = Some [] \<or> cat = Some ''all''"
  shows "getStudySession True cat tbl
     = take 10 (map mapRowToCharacter
         (sort_rows (row_le [(Col_score, True), (Col_attempts, False)]) tbl))"
  using assms
  by (auto simp add: getStudySession_def await_select_def select_limited take_map)

lemma study_category:
  assumes "c \<noteq> []" "c \<noteq> ''all''"
  shows "getStudySession True (Some c) tbl
     = map mapRowToCharacter
         (sort_rows (row_le [(Col_score, True), (Col_attempts, False)])
            (filter (\<lambda>r. row_category r = c) tbl))"
  using assms
  by (simp add: getStudySession_def await_select_def select_category)

lemma study_failed: "getStudySession False cat tbl = []"
  by (simp add: getStudySession_def await_select_def Let_def)

lemma sorted_study_rows:
  "sorted_wrt study_order (map mapRowToCharacter
       (sort_rows (row_le [(Col_score, True), (Col_attempts, False)]) xs))"
proof -
  have "sorted_wrt (row_le [(Col_score, True), (Col_attempts, False)])
      (sort_rows (row_le [(Col_score, True), (Col_attempts, False)]) xs)"
    by (rule sorted_sort_rows) (rule row_le_total, rule row_le_trans)
  moreover have "row_le [(Col_score, True), (Col_attempts, False)]
      = (\<lambda>a b. study_order (mapRowToCharacter a) (mapRowToCharacter b))"
    by (intro ext) (rule row_le_study)
  ultimately show ?thesis
    by (simp only: sorted_wrt_map)
qed

lemma filter_category_map:
  "filter (\<lambda>x. category x = c) (map mapRowToCharacter tbl)
     = map mapRowToCharacter (filter (\<lambda>r. row_category r = c) tbl)"
  by (induction tbl) (simp_all add: mapRowToCharacter_def)

text \<open>
  C1, as the code has it. When the request succeeds, the result of the ordering query is
  sorted by score ascending and, on equal score, attempts descending. With no category
  filter, which the code takes to be the filter absent, the empty string or \<open>"all"\<close>, it
  is the first 10 items of the whole collection so sorted, so it has 10 items when the
  collection has more than 10 and all of them otherwise. With any other filter it has all
  and only the items whose category equals the filter, with no truncation. When the
  request fails the result is empty.
\<close>

theorem getStudySession_ordering:
  "sorted_wrt study_order (getStudySession True cat tbl)
   \<and> (cat = None \<or> cat = Some [] \<or> cat = Some ''all'' \<longrightarrow>
        (\<exists>full. mset full = mset (map mapRowToCharacter tbl)
           \<and> sorted_wrt study_order full
           \<and> getStudySession True cat tbl = take 10 full)
        \<and> length (getStudySession True cat tbl) = min 10 (length tbl))
   \<and> (cat = Some c \<and> c \<noteq> [] \<and> c \<noteq> ''all'' \<longrightarrow>
        mset (getStudySession True cat tbl)
          = mset (filter (\<lambda>x. category x = c) (map mapRowToCharacter tbl)))
   \<and> getStudySession False cat tbl = []"
proof -
  let ?le = "row_le [(Col_score, True), (Col_attempts, False)]"
  let ?full = "map mapRowToCharacter (sort_rows ?le tbl)"
  have full_perm: "mset ?full = mset (map mapRowToCharacter tbl)"
    by (simp add: mset_sort_rows)
  have full_sorted: "sorted_wrt study_order ?full"
    by (rule sorted_study_rows)
  have unfiltered: "(\<exists>full. mset full = mset (map mapRowToCharacter tbl)
           \<and> sorted_wrt study_order full
           \<and> getStudySession True cat tbl = take 10 full)
        \<and> length (getStudySession True cat tbl) = min 10 (length tbl)"
    if no: "cat = None \<or> cat = Some [] \<or> cat = Some ''all''"
  proof -
    have eq: "getStudySession True cat tbl = take 10 ?full"
      by (rule study_no_filter [OF no])
    have len: "length (getStudySession True cat tbl) = min 10 (length tbl)"
      unfolding eq by (simp add: length_sort_rows min.commute)
    from eq full_perm full_sorted len show ?thesis by blast
  qed
  have filtered: "mset (getStudySession True cat tbl)
          = mset (filter (\<lambda>x. category x = c) (map mapRowToCharacter tbl))"
    if "cat = Some c" "c \<noteq> []" "c \<noteq> ''all''"
    using that by (simp add: study_category mset_sort_rows filter_category_map)
  have sorted_all: "sorted_wrt study_order (getStudySession True cat tbl)"
  proof (cases "cat = None \<or> cat = Some [] \<or> cat = Some ''all''")
    case True
    from full_sorted show ?thesis
      unfolding study_no_filter [OF True] by (rule sorted_wrt_take)
  next
    case False
    then obtain c' where c': "cat = Some c'" "c' \<noteq> []" "c' \<noteq> ''all''" by (cases cat) auto
    show ?thesis
      unfolding c'(1) study_category [OF c'(2,3)] by (rule sorted_study_rows)
  qed
  from sorted_all unfiltered filtered study_failed [of cat tbl] show ?thesis by blast
qed


theorem getStudySession_ordering_witness:
  "map id' (getStudySession True None scenario_table) = [''B'', ''C'', ''A'']
   \<and> sorted_wrt study_order (getStudySession True None scenario_table)
   \<and> length (getStudySession True None scenario_table) = 3
   \<and> map id' (getStudySession True (Some ''Nature'') scenario_table) = [''C'', ''A'']
   \<and> mset (getStudySession True (Some ''Nature'') scenario_table)
       = mset (filter (\<lambda>x. category x = ''Nature'') (map mapRowToCharacter scenario_table))"
proof -
  have ids: "map id' (getStudySession True None scenario_table) = [''B'', ''C'', ''A'']"
    by (simp add: getStudySession_def await_select_def run_select_def limit_to_def order_by_def
        from_characters_def matches_def sort_rows_def scenario_table_def sample_row_def
        mapRowToCharacter_def)
  have ids': "map id' (getStudySession True (Some ''Nature'') scenario_table) = [''C'', ''A'']"
    by (simp add: getStudySession_def await_select_def run_select_def eq_filter_def order_by_def
        from_characters_def matches_def sort_rows_def scenario_table_def sample_row_def
        mapRowToCharacter_def)
  have len: "length scenario_table = 3" by (simp add: scenario_table_def)
  from getStudySession_ordering [of None scenario_table]
    getStudySession_ordering [of "Some ''Nature''" scenario_table "''Nature''"] ids ids' len
  show ?thesis by simp
qed

text \<open>
  C1 as stated fails for the empty string, a filter that is neither absent nor \<open>"all"\<close>:
  the query returns an item whose category is not the filter.
\<close>

theorem getStudySession_empty_filter_counterexample:
  "getStudySession True (Some []) [sample_row ''A'' ''Nature'' 0 0 1]
     = [mapRowToCharacter (sample_row ''A'' ''Nature'' 0 0 1)]
   \<and> category (mapRowToCharacter (sample_row ''A'' ''Nature'' 0 0 1)) \<noteq> []"
  by (simp add: getStudySession_def await_select_def run_select_def limit_to_def order_by_def
      from_characters_def matches_def sort_rows_def sample_row_def mapRowToCharacter_def)

section \<open>Items the sort does not tell apart\<close>

lemma filter_take_prefix:
  "filter P (take n xs) = take (length (filter P (take n xs))) (filter P xs)"
proof -
  have "filter P xs = filter P (take n xs) @ filter P (drop n xs)"
    by (simp only: filter_append [symmetric] append_take_drop_id)
  then show ?thesis by simp
qed

lemma tie_rows:
  "filter (tie_class sc att) (map mapRowToCharacter xs)
     = map mapRowToCharacter (filter (\<lambda>r. row_score r = sc \<and> row_attempts r = att) xs)"
  by (induction xs) (simp_all add: tie_class_def mapRowToCharacter_def)

lemma ties_sorted:
  "filter (\<lambda>r. row_score r = sc \<and> row_attempts r = att)
       (sort_rows (row_le [(Col_score, True), (Col_attempts, False)]) xs)
     = filter (\<lambda>r. row_score r = sc \<and> row_attempts r = att) xs"
  by (rule filter_sort_rows) simp

lemma insert_row_map:
  assumes "\<And>a b. le (g a) (g b) = le a b"
  shows "insert_row le (g x) (map g xs) = map g (insert_row le x xs)"
  using assms by (induction xs) simp_all

lemma sort_rows_map:
  assumes "\<And>a b. le (g a) (g b) = le a b"
  shows "sort_rows le (map g xs) = map g (sort_rows le xs)"
proof (induction xs)
  case Nil
  show ?case by (simp add: sort_rows_Nil)
next
  case (Cons x xs)
  then show ?case
    by (simp add: sort_rows_Cons insert_row_map [of le g, OF assms])
qed

lemma study_sort_created_at:
  "sort_rows (row_le [(Col_score, True), (Col_attempts, False)]) (map (row_created_at_update f) xs)
     = map (row_created_at_update f)
         (sort_rows (row_le [(Col_score, True), (Col_attempts, False)]) xs)"
  by (rule sort_rows_map) simp

lemma study_created_at_ok:
  "getStudySession True cat (map (row_created_at_update f) tbl) = getStudySession True cat tbl"
proof -
  have drop_field: "mapRowToCharacter \<circ> row_created_at_update f = mapRowToCharacter"
    by (rule ext) (simp add: mapRowToCharacter_def)
  show ?thesis
  proof (cases "cat = None \<or> cat = Some [] \<or> cat = Some ''all''")
    case True
    show ?thesis
      unfolding study_no_filter [OF True]
      by (simp add: study_sort_created_at drop_field)
  next
    case False
    then obtain c where c: "cat = Some c" "c \<noteq> []" "c \<noteq> ''all''" by (cases cat) auto
    have "filter (\<lambda>r. row_category r = c) (map (row_created_at_update f) tbl)
        = map (row_created_at_update f) (filter (\<lambda>r. row_category r = c) tbl)"
      by (induction tbl) simp_all
    then show ?thesis
      unfolding c(1) study_category [OF c(2,3)]
      by (simp add: study_sort_created_at drop_field)
  qed
qed

lemma study_created_at:
  "getStudySession ok cat (map (row_created_at_update f) tbl) = getStudySession ok cat tbl"
  by (cases ok) (simp_all add: study_failed study_created_at_ok)

text \<open>
  C8, as the code has it. The ordering query is a function of the table and the filter,
  with no randomness. Its sort keys are score and attempts only. Items with equal score and
  equal attempts come out in the order in which the table holds them: with a category
  filter they are exactly the matching items of that class in table order, and with no
  filter a prefix of the class in table order. The column \<open>created_at\<close> plays no part:
  changing it in any way leaves the result as it is.
\<close>

theorem getStudySession_ties:
  "(cat = Some c \<and> c \<noteq> [] \<and> c \<noteq> ''all'' \<longrightarrow>
      filter (tie_class sc att) (getStudySession True cat tbl)
        = filter (tie_class sc att)
            (map mapRowToCharacter (filter (\<lambda>r. row_category r = c) tbl)))
   \<and> (cat = None \<or> cat = Some [] \<or> cat = Some ''all'' \<longrightarrow>
      (\<exists>n. filter (tie_class sc att) (getStudySession True cat tbl)
        = take n (filter (tie_class sc att) (map mapRowToCharacter tbl))))
   \<and> getStudySession ok cat (map (row_created_at_update f) tbl) = getStudySession ok cat tbl"
proof -
  have filtered: "filter (tie_class sc att) (getStudySession True cat tbl)
        = filter (tie_class sc att)
            (map mapRowToCharacter (filter (\<lambda>r. row_category r = c) tbl))"
    if "cat = Some c" "c \<noteq> []" "c \<noteq> ''all''"
    using that by (simp add: study_category tie_rows ties_sorted)
  have unfiltered: "\<exists>n. filter (tie_class sc att) (getStudySession True cat tbl)
        = take n (filter (tie_class sc att) (map mapRowToCharacter tbl))"
    if no: "cat = None \<or> cat = Some [] \<or> cat = Some ''all''"
  proof -
    let ?sorted = "map mapRowToCharacter
        (sort_rows (row_le [(Col_score, True), (Col_attempts, False)]) tbl)"
    have same: "filter (tie_class sc att) ?sorted
        = filter (tie_class sc att) (map mapRowToCharacter tbl)"
      by (simp add: tie_rows ties_sorted)
    have "filter (tie_class sc att) (take 10 ?sorted)
        = take (length (filter (tie_class sc att) (take 10 ?sorted)))
            (filter (tie_class sc att) ?sorted)"
      by (rule filter_take_prefix)
    then show ?thesis
      unfolding study_no_filter [OF no] same by blast
  qed
  from filtered unfiltered study_created_at [of ok cat f tbl] show ?thesis by blast
qed

theorem getStudySession_ties_witness:
  "map id' (filter (tie_class 0 0)
       (getStudySession True (Some ''Nature'')
          [sample_row ''A'' ''Nature'' 0 0 1, sample_row ''B'' ''Nature'' 0 0 2,
           sample_row ''C'' ''Numbers'' 0 0 3])) = [''A'', ''B'']
   \<and> (\<exists>n. filter (tie_class 0 0)
       (getStudySession True None
          [sample_row ''A'' ''Nature'' 0 0 1, sample_row ''B'' ''Nature'' 0 0 2,
           sample_row ''C'' ''Numbers'' 0 0 3])
      = take n (filter (tie_class 0 0) (map mapRowToCharacter
          [sample_row ''A'' ''Nature'' 0 0 1, sample_row ''B'' ''Nature'' 0 0 2,
           sample_row ''C'' ''Numbers'' 0 0 3])))"
  using getStudySession_ties [of "Some ''Nature''" "''Nature''" 0 0
      "[sample_row ''A'' ''Nature'' 0 0 1, sample_row ''B'' ''Nature'' 0 0 2,
        sample_row ''C'' ''Numbers'' 0 0 3]"]
    getStudySession_ties [of None "''Nature''" 0 0
      "[sample_row ''A'' ''Nature'' 0 0 1, sample_row ''B'' ''Nature'' 0 0 2,
        sample_row ''C'' ''Numbers'' 0 0 3]"]
  by (simp add: sample_row_def mapRowToCharacter_def tie_class_def)

text \<open>
  C8 as stated fails: for two items with equal score and attempts that the table holds
  oldest first, the ordering query returns the older one first, where most-recently-created
  first, the order of \<open>getCharacters\<close>, is the reverse.
\<close>

theorem getStudySession_ties_counterexample:
  "map id' (getStudySession True None
       [sample_row ''older'' ''Nature'' 0 0 1, sample_row ''newer'' ''Nature'' 0 0 2])
     = [''older'', ''newer'']
   \<and> map id' (getCharacters True
       [sample_row ''older'' ''Nature'' 0 0 1, sample_row ''newer'' ''Nature'' 0 0 2])
     = [''newer'', ''older'']"
  by (simp add: getStudySession_def getCharacters_def await_select_def run_select_def
      limit_to_def order_by_def from_characters_def matches_def sort_rows_def sample_row_def
      mapRowToCharacter_def)


section \<open>The score-update rule\<close>

lemma matches_id: "matches (eq_filter Col_id i from_characters) r = (row_id r = i)"
  by (simp add: matches_def eq_filter_def from_characters_def)

lemma select_by_id:
  "run_select (eq_filter Col_id i from_characters) tbl = filter (\<lambda>r. row_id r = i) tbl"
  by (simp add: run_select_def eq_filter_def from_characters_def matches_def [abs_def]
      sort_rows_trivial)

lemma row_id_apply_updates: "row_id (apply_updates u r) = row_id r"
  by (simp add: apply_updates_def)

lemma filter_updated:
  "filter (\<lambda>x. row_id x = i) (map (\<lambda>x. if row_id x = i then apply_updates u x else x) tbl)
     = map (apply_updates u) (filter (\<lambda>x. row_id x = i) tbl)"
  by (induction tbl) (simp_all add: row_id_apply_updates)

lemma filter_not_updated:
  "filter (\<lambda>x. row_id x \<noteq> i) (map (\<lambda>x. if row_id x = i then apply_updates u x else x) tbl)
     = filter (\<lambda>x. row_id x \<noteq> i) tbl"
  by (induction tbl) (simp_all add: row_id_apply_updates)

lemma recordAnswer_unique:
  assumes one: "filter (\<lambda>x. row_id x = i) tbl = [r]"
  shows "recordAnswer True True now i b tbl
     = map (\<lambda>x. if row_id x = i
          then apply_updates
            \<lparr>upd_attempts = row_attempts r + 1,
             upd_correct_count = (if b then row_correct_count r + 1 else row_correct_count r),
             upd_score = (if b then row_score r + 1 else max 0 (row_score r - 1)),
             upd_last_reviewed = now\<rparr> x
          else x) tbl"
  by (simp add: recordAnswer_def await_select_def select_by_id one await_update_def
      matches_id Let_def)

text \<open>
  C2. When row \<open>r\<close> is the one row of the table with the given id and both requests
  succeed, \<open>recordAnswer\<close> leaves one row with that id, whose attempts are those of \<open>r\<close>
  plus 1, whose correct count is one more for a correct answer and unchanged for an
  incorrect one, and whose score is one more for a correct answer and \<open>max(0, score - 1)\<close>
  for an incorrect one; the other rows are untouched. From a freshly added item, three
  incorrect answers give \<open>(score, attempts, correctCount) = (0, 3, 0)\<close>, and a correct
  answer followed by an incorrect one gives \<open>(0, 2, 1)\<close>.
\<close>

theorem recordAnswer_counters:
  "(filter (\<lambda>x. row_id x = i) tbl = [r] \<longrightarrow>
      (\<exists>r'. filter (\<lambda>x. row_id x = i) (recordAnswer True True now i b tbl) = [r']
         \<and> row_attempts r' = row_attempts r + 1
         \<and> row_correct_count r' = (if b then row_correct_count r + 1 else row_correct_count r)
         \<and> row_score r' = (if b then row_score r + 1 else max 0 (row_score r - 1)))
      \<and> filter (\<lambda>x. row_id x \<noteq> i) (recordAnswer True True now i b tbl)
          = filter (\<lambda>x. row_id x \<noteq> i) tbl)
   \<and> map counters (run_storage []
        [AddCharacter True i uid t0 c, RecordAnswer True True t1 i False,
         RecordAnswer True True t2 i False, RecordAnswer True True t3 i False]) = [(0, 3, 0)]
   \<and> map counters (run_storage []
        [AddCharacter True i uid t0 c, RecordAnswer True True t1 i True,
         RecordAnswer True True t2 i False]) = [(0, 2, 1)]"
proof -
  have rule: "(\<exists>r'. filter (\<lambda>x. row_id x = i) (recordAnswer True True now i b tbl) = [r']
         \<and> row_attempts r' = row_attempts r + 1
         \<and> row_correct_count r' = (if b then row_correct_count r + 1 else row_correct_count r)
         \<and> row_score r' = (if b then row_score r + 1 else max 0 (row_score r - 1)))
      \<and> filter (\<lambda>x. row_id x \<noteq> i) (recordAnswer True True now i b tbl)
          = filter (\<lambda>x. row_id x \<noteq> i) tbl"
    if one: "filter (\<lambda>x. row_id x = i) tbl = [r]"
    unfolding recordAnswer_unique [OF one] filter_updated filter_not_updated one
    by (simp add: apply_updates_def)
  have three_wrong: "map counters (run_storage []
        [AddCharacter True i uid t0 c, RecordAnswer True True t1 i False,
         RecordAnswer True True t2 i False, RecordAnswer True True t3 i False]) = [(0, 3, 0)]"
    by (simp add: run_storage_def addCharacter_def recordAnswer_def await_select_def
        select_by_id await_update_def matches_id apply_updates_def counters_def Let_def)
  have right_wrong: "map counters (run_storage []
        [AddCharacter True i uid t0 c, RecordAnswer True True t1 i True,
         RecordAnswer True True t2 i False]) = [(0, 2, 1)]"
    by (simp add: run_storage_def addCharacter_def recordAnswer_def await_select_def
        select_by_id await_update_def matches_id apply_updates_def counters_def Let_def)
  from rule three_wrong right_wrong show ?thesis by blast
qed

theorem recordAnswer_counters_witness:
  "filter (\<lambda>x. row_id x = ''B'') scenario_table = [sample_row ''B'' ''Numbers'' 0 3 2]
   \<and> map counters (filter (\<lambda>x. row_id x = ''B'')
         (recordAnswer True True 9 ''B'' False scenario_table)) = [(0, 4, 0)]
   \<and> map counters (filter (\<lambda>x. row_id x = ''B'')
         (recordAnswer True True 9 ''B'' True scenario_table)) = [(1, 4, 1)]"
proof -
  have one: "filter (\<lambda>x. row_id x = ''B'') scenario_table = [sample_row ''B'' ''Numbers'' 0 3 2]"
    by (simp add: scenario_table_def sample_row_def)
  have vals: "row_attempts (sample_row ''B'' ''Numbers'' 0 3 2) = 3"
    "row_correct_count (sample_row ''B'' ''Numbers'' 0 3 2) = 0"
    "row_score (sample_row ''B'' ''Numbers'' 0 3 2) = 0"
    by (simp_all add: sample_row_def)
  from recordAnswer_counters [of "''B''" scenario_table _ 9 False,
      THEN conjunct1, THEN mp, OF one, THEN conjunct1]
  have wrong: "map counters (filter (\<lambda>x. row_id x = ''B'')
         (recordAnswer True True 9 ''B'' False scenario_table)) = [(0, 4, 0)]"
    by (auto simp add: counters_def vals)
  from recordAnswer_counters [of "''B''" scenario_table _ 9 True,
      THEN conjunct1, THEN mp, OF one, THEN conjunct1]
  have right: "map counters (filter (\<lambda>x. row_id x = ''B'')
         (recordAnswer True True 9 ''B'' True scenario_table)) = [(1, 4, 1)]"
    by (auto simp add: counters_def vals)
  from one wrong right show ?thesis by simp
qed

section \<open>The invariant of the counters\<close>

lemma set_run_select: "set (run_select q tbl) \<subseteq> set tbl"
proof -
  have "set (sort_rows (row_le (q_order q)) (filter (matches q) tbl)) \<subseteq> set tbl"
    by (simp add: set_sort_rows)
  moreover have "set (take n xs) \<subseteq> set xs" for n and xs :: "CharacterRow list"
    by (rule set_take_subset)
  ultimately show ?thesis
    by (auto simp add: run_select_def Let_def split: option.splits dest: in_set_takeD)
qed

lemma single_member: "single (Data xs) = Data x \<Longrightarrow> x \<in> set xs"
  by (cases "Data xs :: 'a list response" rule: single.cases) auto

lemma row_inv_apply_updates:
  "row_inv (apply_updates u x) \<longleftrightarrow> upd_correct_count u \<le> upd_attempts u \<and> 0 \<le> upd_score u"
  by (simp add: row_inv_def apply_updates_def)

lemma row_inv_recordAnswer:
  assumes inv: "list_all row_inv tbl"
  shows "list_all row_inv (recordAnswer fetch_ok update_ok now i b tbl)"
proof (cases "single (await_select fetch_ok (eq_filter Col_id i from_characters) tbl)")
  case Error
  with inv show ?thesis by (simp add: recordAnswer_def)
next
  case (Data cur)
  then have ok: "fetch_ok" by (cases fetch_ok) (simp_all add: await_select_def)
  with Data have "cur \<in> set (run_select (eq_filter Col_id i from_characters) tbl)"
    by (simp add: await_select_def single_member)
  with set_run_select have "cur \<in> set tbl" by blast
  with inv have cur: "row_inv cur" by (simp add: list_all_iff)
  show ?thesis
  proof (cases update_ok)
    case False
    with Data inv show ?thesis by (simp add: recordAnswer_def await_update_def Let_def)
  next
    case True
    with Data inv cur [unfolded row_inv_def] show ?thesis
      by (auto simp add: recordAnswer_def await_update_def Let_def list_all_iff
          row_inv_apply_updates)
  qed
qed

lemma row_inv_addCharacter:
  assumes inv: "list_all row_inv tbl"
  shows "list_all row_inv (snd (addCharacter ok new_id uid now c tbl))"
  using inv by (simp add: addCharacter_def Let_def row_inv_def)

lemma row_inv_apply_storage_op:
  "list_all row_inv tbl \<Longrightarrow> list_all row_inv (apply_storage_op tbl x)"
  by (cases x) (simp_all add: row_inv_recordAnswer row_inv_addCharacter)

lemma row_inv_run_storage:
  "list_all row_inv tbl \<Longrightarrow> list_all row_inv (run_storage tbl ops)"
  unfolding run_storage_def
  by (induction ops arbitrary: tbl) (simp_all add: row_inv_apply_storage_op)

text \<open>
  C9. In every table reached from the empty table by \<open>addCharacter\<close> and \<open>recordAnswer\<close>
  calls, in any order and whether their requests succeed or fail, every item has
  \<open>correctCount \<le> attempts\<close> and \<open>score \<ge> 0\<close>. Each \<open>recordAnswer\<close> call preserves the
  two invariants on any table, and the item that \<open>addCharacter\<close> creates has them.
\<close>

theorem counters_invariant:
  "list_all row_inv (run_storage [] ops)
   \<and> (list_all row_inv tbl \<longrightarrow>
        list_all row_inv (recordAnswer fetch_ok update_ok now i b tbl))
   \<and> list_all row_inv (snd (addCharacter True new_id uid now c []))"
  by (simp add: row_inv_run_storage row_inv_recordAnswer row_inv_addCharacter)

theorem counters_invariant_witness:
  "list_all row_inv scenario_table
   \<and> list_all row_inv (recordAnswer True True 9 ''A'' False scenario_table)
   \<and> map counters (recordAnswer True True 9 ''A'' False scenario_table)
       = [(1, 6, 0), (0, 3, 0), (0, 1, 0)]"
proof -
  have inv: "list_all row_inv scenario_table"
    by (simp add: scenario_table_def sample_row_def row_inv_def)
  have vals: "map counters (recordAnswer True True 9 ''A'' False scenario_table)
       = [(1, 6, 0), (0, 3, 0), (0, 1, 0)]"
    by (simp add: recordAnswer_def await_select_def select_by_id await_update_def matches_id
        apply_updates_def counters_def Let_def scenario_table_def sample_row_def)
  from counters_invariant [of "[]" scenario_table True True 9 "''A''" False] inv vals
  show ?thesis by simp
qed

end
